theory Spec2Isabelle
  imports Complex_Main "HOL-Library.Sublist" "HOL-Library.Multiset"
begin

section \<open>Python strings\<close>

text \<open>
  A Python \<^verbatim>\<open>str\<close> is modelled as a \<^typ>\<open>string\<close> of ASCII characters. The
  character classes below are the ASCII parts of Python's: \<^verbatim>\<open>str.lower\<close> maps
  \<^verbatim>\<open>A-Z\<close> to \<^verbatim>\<open>a-z\<close>, \<^verbatim>\<open>str.strip\<close> removes the code points 9-13, 28-31 and
  32 from both ends, and the word characters of \<^verbatim>\<open>\b\<close> are \<^verbatim>\<open>[A-Za-z0-9_]\<close>.
  A character outside ASCII is none of these in the model.
\<close>

definition is_upper :: "char \<Rightarrow> bool" where
  "is_upper c = (let n = (of_char c :: nat) in 65 \<le> n \<and> n \<le> 90)"

definition lower_char :: "char \<Rightarrow> char" where
  "lower_char c = (if is_upper c then char_of ((of_char c :: nat) + 32) else c)"

definition lower :: "string \<Rightarrow> string" where
  "lower s = map lower_char s"

definition is_space :: "char \<Rightarrow> bool" where
  "is_space c = (let n = (of_char c :: nat) in (9 \<le> n \<and> n \<le> 13) \<or> (28 \<le> n \<and> n \<le> 32))"

definition strip :: "string \<Rightarrow> string" where
  "strip s = rev (dropWhile is_space (rev (dropWhile is_space s)))"

definition is_word :: "char \<Rightarrow> bool" where
  "is_word c = (let n = (of_char c :: nat) in
     (48 \<le> n \<and> n \<le> 57) \<or> (65 \<le> n \<and> n \<le> 90) \<or> n = 95 \<or> (97 \<le> n \<and> n \<le> 122))"

text \<open>\<^verbatim>\<open>sub in s\<close> on strings: \<open>sub\<close> occurs in \<open>s\<close> as a contiguous block.\<close>

definition str_in :: "string \<Rightarrow> string \<Rightarrow> bool" where
  "str_in sub s = sublist sub s"

text \<open>
  \<^verbatim>\<open>re.split(r"[,|/;&]", text)\<close>: the pieces between the delimiter characters, empty
  pieces included; the result always has at least one piece.
\<close>

definition is_delim :: "char \<Rightarrow> bool" where
  "is_delim c = (c \<in> set '',|/;&'')"

fun re_split :: "string \<Rightarrow> string list" where
  "re_split [] = [[]]"
| "re_split (c # cs) =
     (if is_delim c then [] # re_split cs
      else (case re_split cs of [] \<Rightarrow> [[c]] | p # ps \<Rightarrow> (c # p) # ps))"

text \<open>
  \<^verbatim>\<open>re.sub(r"\b(kulit|dan)\b", "", t)\<close>. The scan goes left to right; \<open>prev\<close> says
  whether the character before the current position is a word character. Both
  alternatives start and end with a word character, so the leading \<^verbatim>\<open>\b\<close> holds
  iff \<open>prev\<close> is false and the trailing one iff the text ends or continues with a
  non-word character. \<^verbatim>\<open>kulit\<close> is tried before \<^verbatim>\<open>dan\<close>. A match is dropped and
  the scan goes on behind it.
\<close>

definition boundary_after :: "string \<Rightarrow> bool" where
  "boundary_after rest = (case rest of [] \<Rightarrow> True | c # _ \<Rightarrow> \<not> is_word c)"

definition match_filler :: "bool \<Rightarrow> string \<Rightarrow> string option" where
  "match_filler prev s =
     (if prev then None
      else if prefix ''kulit'' s \<and> boundary_after (drop 5 s) then Some (drop 5 s)
      else if prefix ''dan'' s \<and> boundary_after (drop 3 s) then Some (drop 3 s)
      else None)"

function re_sub_filler :: "bool \<Rightarrow> string \<Rightarrow> string" where
  "re_sub_filler prev [] = []"
| "re_sub_filler prev (c # cs) =
     (case match_filler prev (c # cs) of
        Some rest \<Rightarrow> re_sub_filler True rest
      | None \<Rightarrow> c # re_sub_filler (is_word c) cs)"
  by pat_completeness auto
termination
  by (relation "measure (\<lambda>(prev, s). length s)")
     (auto simp: match_filler_def split: if_splits)

section \<open>Skin-token canonicalizer\<close>

definition CANON :: "string set" where
  "CANON = {''berjerawat'', ''berminyak'', ''kering'', ''sensitif'', ''normal'',
            ''kombinasi'', ''kusam'', ''semua''}"

text \<open>\<^verbatim>\<open>_canonicalize_skin_token\<close>; \<open>None\<close> is Python's \<^verbatim>\<open>None\<close>.\<close>

definition canonicalize_skin_token :: "string \<Rightarrow> string option" where
  "canonicalize_skin_token raw =
     (if raw = [] then None
      else
        let t = strip (lower raw);
            t = strip (re_sub_filler False t)
        in if t \<in> CANON then Some t
           else if str_in ''semua'' t then Some ''semua''
           else if str_in ''acne'' t \<or> str_in ''jerawat'' t then Some ''berjerawat''
           else if str_in ''oily'' t \<or> str_in ''berminyak'' t then Some ''berminyak''
           else if str_in ''dry'' t \<or> str_in ''kering'' t then Some ''kering''
           else if str_in ''sensitive'' t \<or> str_in ''sensitif'' t then Some ''sensitif''
           else if str_in ''comb'' t \<or> str_in ''kombinasi'' t then Some ''kombinasi''
           else if str_in ''dull'' t \<or> str_in ''kusam'' t then Some ''kusam''
           else None)"

text \<open>Python truthiness of an optional string: neither \<^verbatim>\<open>None\<close> nor empty.\<close>

definition truthy :: "string option \<Rightarrow> bool" where
  "truthy r = (case r of None \<Rightarrow> False | Some t \<Rightarrow> t \<noteq> [])"

text \<open>
  \<^verbatim>\<open>_parse_skin_tokens\<close>. The argument is \<open>None\<close> when \<^verbatim>\<open>pd.isna(s)\<close> holds (an
  absent value) and \<open>Some raw\<close> for a text.
\<close>

definition parse_skin_tokens :: "string option \<Rightarrow> string set" where
  "parse_skin_tokens s =
     (case s of
        None \<Rightarrow> {''semua''}
      | Some raw \<Rightarrow>
          let text = lower raw in
          if str_in ''semua'' text then {''semua''}
          else
            let parts = re_split text;
                toks = set (map (\<lambda>p. the (canonicalize_skin_token p))
                                (filter (\<lambda>p. truthy (canonicalize_skin_token p)) parts))
            in if toks = {} then {''semua''} else toks)"

text \<open>The tokens of a text in which \<^verbatim>\<open>semua\<close> does not occur.\<close>

definition phrase_tokens :: "string \<Rightarrow> string set" where
  "phrase_tokens text =
     set (map (\<lambda>p. the (canonicalize_skin_token p))
              (filter (\<lambda>p. truthy (canonicalize_skin_token p)) (re_split text)))"

section \<open>Schema normalizer\<close>

text \<open>
  An exception of the Python run time or of the libraries is a value; a function that
  can raise returns \<open>py_error + 'a\<close>.
\<close>

datatype py_error = TypeError | KeyError | IndexError

text \<open>
  A \<^verbatim>\<open>DataFrame\<close> is its columns in order, each a label and the cells of the rows.
  Two columns may carry the same label. A cell holds a text, a number or the missing
  value \<^verbatim>\<open>NaN\<close>. Floating-point numbers are taken as reals.
\<close>

datatype cell = Str string | Num real | NaN

type_synonym column = "string \<times> cell list"
type_synonym dataframe = "column list"

definition nrows :: "dataframe \<Rightarrow> nat" where
  "nrows df = (case df of [] \<Rightarrow> 0 | (_, cells) # _ \<Rightarrow> length cells)"

text \<open>\<^verbatim>\<open>str(c).lower().strip().replace(" ", "_").replace(".", "")\<close>\<close>

definition normalize_column_name :: "string \<Rightarrow> string" where
  "normalize_column_name c =
     filter (\<lambda>x. x \<noteq> CHR ''.'')
       (map (\<lambda>x. if x = CHR '' '' then CHR ''_'' else x) (strip (lower c)))"

definition alias_map :: "(string \<times> string) list" where
  "alias_map =
     [(''product_name'', ''nama_produk''), (''merek'', ''brand''),
      (''subkategori'', ''sub_kategori''),
      (''skin_type'', ''jenis_kulit_kompatibel''), (''description'', ''deskripsi''),
      (''harga'', ''harga_idr''), (''price'', ''harga_idr''), (''size'', ''size_ml''),
      (''gambar'', ''url_gambar''), (''image'', ''url_gambar''),
      (''link_gambar'', ''url_gambar'')]"

text \<open>\<^verbatim>\<open>df.rename(columns=alias_map)\<close>: a label that is no key stays.\<close>

definition rename_column :: "string \<Rightarrow> string" where
  "rename_column c = (case map_of alias_map c of Some c' \<Rightarrow> c' | None \<Rightarrow> c)"

definition required_cols :: "string set" where
  "required_cols =
     {''id'', ''nama_produk'', ''brand'', ''sub_kategori'', ''manfaat'',
      ''jenis_kulit_kompatibel'', ''rating'', ''deskripsi'', ''harga_idr'', ''size_ml'',
      ''klaim'', ''url_gambar''}"

definition numeric_cols :: "string list" where
  "numeric_cols = [''rating'', ''harga_idr'', ''size_ml'']"

text \<open>
  The first loop: a required column that is absent is appended, filled with
  \<^verbatim>\<open>np.nan\<close> when numeric and with \<^verbatim>\<open>""\<close> otherwise.
\<close>

fun fill_missing :: "string list \<Rightarrow> dataframe \<Rightarrow> dataframe" where
  "fill_missing [] df = df"
| "fill_missing (col # cols) df =
     fill_missing cols
       (if col \<notin> set (map fst df)
        then df @ [(col, replicate (nrows df)
                           (if col \<notin> set numeric_cols then Str [] else NaN))]
        else df)"

text \<open>
  \<^verbatim>\<open>pd.to_numeric(..., errors="coerce")\<close> on the cells of one column. What the
  library accepts as the text of a number is the parameter \<open>parse\<close>.
\<close>

definition to_numeric :: "(string \<Rightarrow> real option) \<Rightarrow> cell list \<Rightarrow> cell list" where
  "to_numeric parse cells =
     map (\<lambda>c. case c of
                 Str s \<Rightarrow> (case parse s of Some x \<Rightarrow> Num x | None \<Rightarrow> NaN)
               | Num x \<Rightarrow> Num x
               | NaN \<Rightarrow> NaN) cells"

text \<open>
  The second loop. \<^verbatim>\<open>df[col]\<close> is a \<^verbatim>\<open>Series\<close> when one column carries the label
  and a \<^verbatim>\<open>DataFrame\<close> when several do; \<^verbatim>\<open>pd.to_numeric\<close> raises \<^verbatim>\<open>TypeError\<close>
  on a \<^verbatim>\<open>DataFrame\<close>, and \<^verbatim>\<open>df[col]\<close> raises \<^verbatim>\<open>KeyError\<close> when no column
  carries the label.
\<close>

fun coerce_numeric ::
  "(string \<Rightarrow> real option) \<Rightarrow> string list \<Rightarrow> dataframe \<Rightarrow> py_error + dataframe" where
  "coerce_numeric parse [] df = Inr df"
| "coerce_numeric parse (col # cols) df =
     (let n = length (filter (\<lambda>c. fst c = col) df) in
      if n = 0 then Inl KeyError
      else if n > 1 then Inl TypeError
      else coerce_numeric parse cols
             (map (\<lambda>(c, cells). if c = col then (c, to_numeric parse cells) else (c, cells)) df))"

text \<open>
  The third loop, \<^verbatim>\<open>df[col].astype(str).fillna('')\<close>: every cell becomes its text;
  the text of a number is the parameter \<open>repr\<close>, the text of \<^verbatim>\<open>NaN\<close> is
  \<^verbatim>\<open>nan\<close>, so \<^verbatim>\<open>fillna\<close> finds nothing to fill.
\<close>

definition astype_str :: "(real \<Rightarrow> string) \<Rightarrow> cell \<Rightarrow> cell" where
  "astype_str repr c = (case c of Str s \<Rightarrow> Str s | Num x \<Rightarrow> Str (repr x) | NaN \<Rightarrow> Str ''nan'')"

fun stringify :: "(real \<Rightarrow> string) \<Rightarrow> string list \<Rightarrow> dataframe \<Rightarrow> dataframe" where
  "stringify repr [] df = df"
| "stringify repr (col # cols) df =
     stringify repr cols
       (if col \<notin> set [''rating'', ''harga_idr'', ''size_ml'', ''id'']
        then map (\<lambda>(c, cells). if c = col then (c, map (astype_str repr) cells) else (c, cells)) df
        else df)"

text \<open>
  \<^verbatim>\<open>_normalize_schema\<close>. \<^verbatim>\<open>required_cols\<close> is a Python set, whose iteration order
  is not fixed by the language: \<open>order\<close> is the order in which this run iterates it.
\<close>

definition normalize_schema ::
  "(string \<Rightarrow> real option) \<Rightarrow> (real \<Rightarrow> string) \<Rightarrow> string list \<Rightarrow> dataframe
     \<Rightarrow> py_error + dataframe" where
  "normalize_schema parse repr order df =
     (let df = map (\<lambda>(c, cells). (normalize_column_name c, cells)) df;
          df = map (\<lambda>(c, cells). (rename_column c, cells)) df;
          df = fill_missing order df
      in case coerce_numeric parse numeric_cols df of
           Inl e \<Rightarrow> Inl e
         | Inr df \<Rightarrow> Inr (stringify repr order df))"

text \<open>The label a column of the input carries after the two renaming steps.\<close>

definition canonical_label :: "string \<Rightarrow> string" where
  "canonical_label c = rename_column (normalize_column_name c)"

text \<open>One iteration order of \<^verbatim>\<open>required_cols\<close>: the order of the source text.\<close>

definition required_order :: "string list" where
  "required_order =
     [''id'', ''nama_produk'', ''brand'', ''sub_kategori'', ''manfaat'',
      ''jenis_kulit_kompatibel'', ''rating'', ''deskripsi'', ''harga_idr'', ''size_ml'',
      ''klaim'', ''url_gambar'']"

text \<open>A parser and a printer of numbers that know one number, for the examples.\<close>

definition example_parse :: "string \<Rightarrow> real option" where
  "example_parse s = (if s = ''4.5'' then Some 4.5 else None)"

definition example_repr :: "real \<Rightarrow> string" where
  "example_repr x = (if x = 4.5 then ''4.5'' else ''?'')"

section \<open>The catalog and the engine's state\<close>

text \<open>
  A row of \<^verbatim>\<open>products_df\<close> after \<^verbatim>\<open>load_and_preprocess_data\<close>: the canonical
  columns and the two derived ones. A numeric field is \<open>None\<close> when it is \<^verbatim>\<open>NaN\<close>.
  The rows are labelled \<open>0 .. N - 1\<close> (\<^verbatim>\<open>reset_index\<close>).
\<close>

record product =
  id' :: cell
  nama_produk :: string
  brand :: string
  sub_kategori :: string
  manfaat :: string
  jenis_kulit_kompatibel :: string
  rating :: "real option"
  deskripsi :: string
  harga_idr :: "real option"
  size_ml :: "real option"
  klaim :: string
  url_gambar :: string
  combined_features :: string
  skin_tokens :: "string set"

text \<open>
  The fields of \<^verbatim>\<open>BeautyProductRecommendationSystem\<close> that the filter and the ranker
  read; \<open>None\<close> is Python's \<^verbatim>\<open>None\<close>, the value \<^verbatim>\<open>__init__\<close> stores.
\<close>

record recommender =
  products_df :: "product list option"
  similarity_matrix :: "real list list option"

section \<open>Compatibility filter\<close>

definition skin_type_mapping :: "(string \<times> string list) list" where
  "skin_type_mapping =
     [(''berjerawat'', [''berjerawat'', ''jerawat'', ''acne'']),
      (''berminyak'', [''berminyak'', ''oily'', ''minyak'']),
      (''kering'', [''kering'', ''dry'']),
      (''sensitif'', [''sensitif'', ''sensitive'']),
      (''normal'', [''normal'']),
      (''kombinasi'', [''kombinasi'', ''combination'']),
      (''kusam'', [''kusam'', ''dull''])]"

text \<open>The loop of \<^verbatim>\<open>normalize_skin_type\<close> over the items of the dictionary.\<close>

fun normalize_loop :: "(string \<times> string list) list \<Rightarrow> string \<Rightarrow> string" where
  "normalize_loop [] user_skin_type_lower = user_skin_type_lower"
| "normalize_loop ((standard_type, variants) # items) user_skin_type_lower =
     (if list_ex (\<lambda>variant. str_in variant user_skin_type_lower) variants
      then standard_type
      else normalize_loop items user_skin_type_lower)"

definition normalize_skin_type :: "string \<Rightarrow> string" where
  "normalize_skin_type user_skin_type = normalize_loop skin_type_mapping (lower user_skin_type)"

text \<open>\<^verbatim>\<open>df[mask]\<close>: the rows whose entry of the mask is true, in their order.\<close>

definition boolean_index :: "'a list \<Rightarrow> bool list \<Rightarrow> 'a list" where
  "boolean_index rows mask' = map fst (filter snd (zip rows mask'))"

text \<open>
  \<^verbatim>\<open>find_compatible_products\<close>. The result keeps, with each row, its label in the
  catalog. Subscripting \<^verbatim>\<open>None\<close> raises \<^verbatim>\<open>TypeError\<close>.
\<close>

definition find_compatible_products ::
  "recommender \<Rightarrow> string \<Rightarrow> py_error + (int \<times> product) list" where
  "find_compatible_products self user_skin_type =
     (let normalized_skin_type = normalize_skin_type user_skin_type in
      case products_df self of
        None \<Rightarrow> Inl TypeError
      | Some df \<Rightarrow>
          let mask' = map (\<lambda>p. ''semua'' \<in> skin_tokens p \<or> normalized_skin_type \<in> skin_tokens p) df
          in Inr (boolean_index (zip (map int [0..<length df]) df) mask'))"

text \<open>
  The token as the specification words it: the standard type of the first synonym
  group of the table one of whose synonyms occurs in the lower-cased text, else the
  lower-cased text itself.
\<close>

definition spec_normalized_token :: "string \<Rightarrow> string" where
  "spec_normalized_token u =
     (case find (\<lambda>(std, syns). \<exists>v \<in> set syns. sublist v (lower u)) skin_type_mapping of
        Some (std, _) \<Rightarrow> std
      | None \<Rightarrow> lower u)"

section \<open>Similarity engine\<close>

text \<open>
  Modelled from the spec: \<^verbatim>\<open>cosine_similarity\<close> is scikit-learn's and not in the
  source. Section 4.5: the cosine similarity between every ordered pair of term
  vectors, an N by N matrix. The library divides each vector by its Euclidean length,
  leaves a vector of length 0 as it is, and takes the dot products of the scaled
  vectors. Floating-point numbers are taken as reals.
\<close>

definition dot :: "real list \<Rightarrow> real list \<Rightarrow> real" where
  "dot u v = (\<Sum>(x, y)\<leftarrow>zip u v. x * y)"

definition l2_norm :: "real list \<Rightarrow> real" where
  "l2_norm v = sqrt (dot v v)"

definition normalize_row :: "real list \<Rightarrow> real list" where
  "normalize_row v = (let n = l2_norm v in if n = 0 then v else map (\<lambda>x. x / n) v)"

definition cosine_similarity :: "real list list \<Rightarrow> real list list" where
  "cosine_similarity X =
     (let X_normalized = map normalize_row X
      in map (\<lambda>u. map (\<lambda>v. dot u v) X_normalized) X_normalized)"



section \<open>Ranker\<close>

fun mapE :: "('a \<Rightarrow> py_error + 'b) \<Rightarrow> 'a list \<Rightarrow> py_error + 'b list" where
  "mapE f [] = Inr []"
| "mapE f (x # xs) =
     (case f x of
        Inl e \<Rightarrow> Inl e
      | Inr y \<Rightarrow> (case mapE f xs of Inl e \<Rightarrow> Inl e | Inr ys \<Rightarrow> Inr (y # ys)))"

text \<open>
  Indexing an axis of length \<open>n\<close> of a numpy array: \<open>-n \<le> i < n\<close>, a negative index
  counting from the end; anything else raises \<^verbatim>\<open>IndexError\<close>.
\<close>

definition np_index :: "'a list \<Rightarrow> int \<Rightarrow> py_error + 'a" where
  "np_index xs i =
     (let n = int (length xs) in
      if - n \<le> i \<and> i < n then Inr (xs ! nat (if i < 0 then i + n else i))
      else Inl IndexError)"

text \<open>\<^verbatim>\<open>matrix[np.ix_(idxs, idxs)]\<close>\<close>

definition np_ix :: "real list list \<Rightarrow> int list \<Rightarrow> py_error + real list list" where
  "np_ix matrix idxs =
     mapE (\<lambda>i. case np_index matrix i of
                  Inl e \<Rightarrow> Inl e
                | Inr row \<Rightarrow> mapE (np_index row) idxs) idxs"

text \<open>\<^verbatim>\<open>.mean(axis=1)\<close>\<close>

definition mean_axis1 :: "real list list \<Rightarrow> real list" where
  "mean_axis1 m = map (\<lambda>row. sum_list row / real (length row)) m"

text \<open>
  \<^verbatim>\<open>products_df.loc[idx]\<close>: a label outside \<open>0 .. N - 1\<close> raises \<^verbatim>\<open>KeyError\<close>.
\<close>

definition loc :: "product list \<Rightarrow> int \<Rightarrow> py_error + product" where
  "loc df i = (if 0 \<le> i \<and> i < int (length df) then Inr (df ! nat i) else Inl KeyError)"

text \<open>\<^verbatim>\<open>max\<close> of a non-empty list.\<close>

definition py_max :: "int list \<Rightarrow> int" where
  "py_max xs = fold max (tl xs) (hd xs)"

text \<open>\<^verbatim>\<open>.head(n)\<close>: the first \<open>n\<close> rows, and all but the last \<open>-n\<close> for a negative \<open>n\<close>.\<close>

definition head :: "int \<Rightarrow> 'a list \<Rightarrow> 'a list" where
  "head n xs = (if 0 \<le> n then take (nat n) xs else take (length xs - nat (- n)) xs)"

text \<open>
  \<^verbatim>\<open>rank_on_subset\<close>. The rows of \<^verbatim>\<open>ranked_df\<close> are pairs of
  \<^verbatim>\<open>original_index\<close> and \<^verbatim>\<open>score\<close>. \<^verbatim>\<open>sort_values(by='score', ascending=False)\<close>
  is the library's; the source names no sorting algorithm, so the function that puts
  the rows in order is the parameter \<open>sort_values\<close>. \<^verbatim>\<open>len(None)\<close> raises
  \<^verbatim>\<open>TypeError\<close>. The disjunction of the guard is evaluated left to right.
\<close>

definition rank_on_subset ::
  "((int \<times> real) list \<Rightarrow> (int \<times> real) list) \<Rightarrow> recommender \<Rightarrow> int list \<Rightarrow> int
     \<Rightarrow> py_error + (int \<times> real \<times> product) list" where
  "rank_on_subset sort_values self subset_indices top_n =
     (if subset_indices = [] then Inr []
      else case similarity_matrix self of
        None \<Rightarrow> Inr []
      | Some matrix \<Rightarrow>
         (case products_df self of
            None \<Rightarrow> Inl TypeError
          | Some df \<Rightarrow>
              if py_max subset_indices \<ge> int (length df) then Inr []
              else case np_ix matrix subset_indices of
                Inl e \<Rightarrow> Inl e
              | Inr sim_sub_matrix \<Rightarrow>
                  let avg_sim_scores = mean_axis1 sim_sub_matrix in
                  (case mapE (loc df) subset_indices of
                     Inl e \<Rightarrow> Inl e
                   | Inr subset_df \<Rightarrow>
                       let ratings = map (\<lambda>p. (case rating p of None \<Rightarrow> 3 | Some r \<Rightarrow> r) / 5)
                                         subset_df;
                           final_scores = map (\<lambda>(a, r). a * 0.6 + r * 0.4)
                                              (zip avg_sim_scores ratings);
                           ranked_df = head top_n (sort_values (zip subset_indices final_scores))
                       in mapE (\<lambda>(idx, score).
                                  case loc df idx of
                                    Inl e \<Rightarrow> Inl e
                                  | Inr p \<Rightarrow> Inr (idx, score, p)) ranked_df)))"

text \<open>
  What the ranker needs of the library's sort: the rows come back rearranged, by
  descending score. The order among rows of equal score is left open.
\<close>

definition sorts_descending :: "((int \<times> real) list \<Rightarrow> (int \<times> real) list) \<Rightarrow> bool" where
  "sorts_descending sort_values =
     (\<forall>rows. mset (sort_values rows) = mset rows
             \<and> sorted_wrt (\<lambda>a b. snd a \<ge> snd b) (sort_values rows))"

text \<open>One such sort, by insertion.\<close>

definition insertion_sort_desc :: "(int \<times> real) list \<Rightarrow> (int \<times> real) list" where
  "insertion_sort_desc rows = sort_key (\<lambda>r. - snd r) rows"




section \<open>A small catalog\<close>

text \<open>
  Two products with similarity 0.8 to each other: one for every skin type with rating
  5, one for dry skin without a rating.
\<close>

definition example_product :: "string \<Rightarrow> string \<Rightarrow> real option \<Rightarrow> product" where
  "example_product name skin r =
     \<lparr>id' = Num 1, nama_produk = name, brand = ''Emina'', sub_kategori = ''Toner'',
      manfaat = [], jenis_kulit_kompatibel = skin, rating = r, deskripsi = [],
      harga_idr = None, size_ml = None, klaim = [], url_gambar = [],
      combined_features = lower skin, skin_tokens = parse_skin_tokens (Some skin)\<rparr>"

definition example_catalog :: "product list" where
  "example_catalog =
     [example_product ''Face Toner'' ''Semua jenis kulit'' (Some 5),
      example_product ''Night Cream'' ''Kulit kering'' None]"

definition example_system :: recommender where
  "example_system =
     \<lparr>products_df = Some example_catalog,
      similarity_matrix = Some [[1, 0.8], [0.8, 1]]\<rparr>"

text \<open>The state after \<^verbatim>\<open>__init__\<close> and a load, before the matrix is built.\<close>

definition example_unbuilt :: recommender where
  "example_unbuilt = \<lparr>products_df = Some example_catalog, similarity_matrix = None\<rparr>"






section \<open>Properties of the string operations\<close>

lemma re_split_nonempty: "re_split s \<noteq> []"
  by (induction s) (auto split: list.splits)

lemma re_split_hd_prefix: "re_split s = q # qs \<Longrightarrow> prefix q s"
  by (induction s arbitrary: q qs) (auto split: if_splits list.splits)

lemma re_split_sublist: "p \<in> set (re_split s) \<Longrightarrow> sublist p s"
proof (induction s arbitrary: p)
  case Nil
  then show ?case by simp
next
  case (Cons c cs)
  show ?case
  proof (cases "is_delim c")
    case True
    with Cons.prems have "p = [] \<or> p \<in> set (re_split cs)" by auto
    then show ?thesis
      using Cons.IH by (auto simp: sublist_Cons_right)
  next
    case False
    obtain q qs where q: "re_split cs = q # qs"
      using re_split_nonempty [of cs] by (cases "re_split cs") auto
    with False Cons.prems have "p = c # q \<or> p \<in> set (re_split cs)" by auto
    then show ?thesis
    proof
      assume "p = c # q"
      then show ?thesis using re_split_hd_prefix [OF q] by simp
    next
      assume "p \<in> set (re_split cs)"
      then show ?thesis using Cons.IH by (auto simp: sublist_Cons_right)
    qed
  qed
qed

lemma lower_char_not_upper: "\<not> is_upper (lower_char c)"
  by (auto simp: lower_char_def is_upper_def Let_def)

lemma lower_fixed: "\<forall>c \<in> set s. \<not> is_upper c \<Longrightarrow> lower s = s"
  by (induction s) (auto simp: lower_def lower_char_def)

lemma lower_sublist: "sublist p (lower raw) \<Longrightarrow> lower p = p"
proof -
  assume "sublist p (lower raw)"
  then have "set p \<subseteq> set (lower raw)" by (rule set_mono_sublist)
  then have "\<forall>c \<in> set p. \<not> is_upper c"
    by (auto simp: lower_def lower_char_not_upper)
  then show ?thesis by (rule lower_fixed)
qed

lemma strip_sublist: "sublist (strip s) s"
proof -
  have "suffix (dropWhile is_space (rev (dropWhile is_space s))) (rev (dropWhile is_space s))"
    by (rule suffix_dropWhile)
  then have "sublist (strip s) (dropWhile is_space s)"
    unfolding strip_def by (metis sublist_rev_left suffix_imp_sublist)
  moreover have "sublist (dropWhile is_space s) s"
    by (simp add: suffix_dropWhile)
  ultimately show ?thesis by (rule sublist_order.order.trans)
qed

text \<open>
  Removing the filler words never joins two word characters, so a word that stands in
  the result stood in the text.
\<close>

lemma re_sub_filler_prefix:
  "prefix w (re_sub_filler True s) \<Longrightarrow> \<forall>c \<in> set w. is_word c \<Longrightarrow> prefix w s"
proof (induction s arbitrary: w)
  case Nil
  then show ?case by simp
next
  case (Cons c cs)
  show ?case
  proof (cases w)
    case Nil
    then show ?thesis by simp
  next
    case (Cons d w')
    with Cons.prems Cons.IH [of w'] show ?thesis
      by (auto simp: match_filler_def)
  qed
qed

lemma match_filler_rest:
  "match_filler prev s = Some rest \<Longrightarrow> suffix rest s \<and> boundary_after rest"
  by (auto simp: match_filler_def suffix_drop split: if_splits)

lemma re_sub_filler_sublist:
  "sublist w (re_sub_filler prev s) \<Longrightarrow> \<forall>c \<in> set w. is_word c \<Longrightarrow> sublist w s"
proof (induction prev s rule: re_sub_filler.induct)
  case (1 prev)
  then show ?case by simp
next
  case (2 prev c cs)
  show ?case
  proof (cases "match_filler prev (c # cs)")
    case (Some rest)
    then have "re_sub_filler prev (c # cs) = re_sub_filler True rest" by simp
    with "2.prems"(1) have "sublist w (re_sub_filler True rest)" by (simp only:)
    then have "sublist w rest"
      using "2.IH"(2) [OF Some] "2.prems"(2) by blast
    moreover have "sublist rest (c # cs)"
      using match_filler_rest [OF Some] by (simp add: suffix_imp_sublist)
    ultimately show ?thesis by (rule sublist_order.order.trans)
  next
    case None
    then have "re_sub_filler prev (c # cs) = c # re_sub_filler (is_word c) cs" by simp
    with "2.prems"(1) have "sublist w (c # re_sub_filler (is_word c) cs)" by (simp only:)
    then consider (pre) "prefix w (c # re_sub_filler (is_word c) cs)"
      | (sub) "sublist w (re_sub_filler (is_word c) cs)"
      unfolding sublist_Cons_right by blast
    then show ?thesis
    proof cases
      case pre
      show ?thesis
      proof (cases w)
        case Nil
        then show ?thesis by simp
      next
        case (Cons d w')
        from pre have dc: "d = c" and pw: "prefix w' (re_sub_filler (is_word c) cs)"
          unfolding Cons by simp_all
        from "2.prems"(2) have wc: "is_word c" and ww: "\<forall>c \<in> set w'. is_word c"
          unfolding Cons dc by simp_all
        from pw wc have "prefix w' (re_sub_filler True cs)" by simp
        then have "prefix w' cs" using ww by (rule re_sub_filler_prefix)
        then show ?thesis unfolding Cons dc by simp
      qed
    next
      case sub
      then have "sublist w cs"
        using "2.IH"(1) [OF None] "2.prems"(2) by blast
      then show ?thesis unfolding sublist_Cons_right by blast
    qed
  qed
qed

section \<open>Properties of the skin-token canonicalizer\<close>

lemma CANON_consts:
  "''berjerawat'' \<in> CANON" "''berminyak'' \<in> CANON" "''kering'' \<in> CANON"
  "''sensitif'' \<in> CANON" "''normal'' \<in> CANON" "''kombinasi'' \<in> CANON"
  "''kusam'' \<in> CANON" "''semua'' \<in> CANON" "[] \<notin> CANON"
  by (simp_all add: CANON_def)

lemma canonicalize_in_CANON: "canonicalize_skin_token p = Some t \<Longrightarrow> t \<in> CANON"
  unfolding canonicalize_skin_token_def Let_def
  by (simp split: if_splits) (auto simp: CANON_consts)

lemma truthy_canonicalize:
  "truthy (canonicalize_skin_token p) \<longleftrightarrow> canonicalize_skin_token p \<noteq> None"
proof (cases "canonicalize_skin_token p")
  case None
  then show ?thesis by (simp add: truthy_def)
next
  case (Some t)
  then have "t \<noteq> []"
    using canonicalize_in_CANON CANON_consts(9) by blast
  with Some show ?thesis by (simp add: truthy_def)
qed

lemma canonicalize_semua:
  assumes "canonicalize_skin_token p = Some ''semua''"
  shows "str_in ''semua'' (lower p)"
proof -
  let ?t1 = "strip (lower p)"
  let ?t2 = "strip (re_sub_filler False ?t1)"
  from assms have "str_in ''semua'' ?t2"
    unfolding canonicalize_skin_token_def Let_def
    by (simp add: str_in_def split: if_splits)
  then have "sublist ''semua'' (re_sub_filler False ?t1)"
    unfolding str_in_def using strip_sublist sublist_order.order.trans by blast
  then have "sublist ''semua'' ?t1"
    by (rule re_sub_filler_sublist) (simp add: is_word_def)
  then show ?thesis
    unfolding str_in_def using strip_sublist sublist_order.order.trans by blast
qed

lemma phrase_tokens_iff:
  "t \<in> phrase_tokens text \<longleftrightarrow> (\<exists>p \<in> set (re_split text). canonicalize_skin_token p = Some t)"
  unfolding phrase_tokens_def by (auto simp: truthy_canonicalize image_iff)

lemma parse_skin_tokens_Some:
  "parse_skin_tokens (Some raw) =
     (if str_in ''semua'' (lower raw) then {''semua''}
      else if phrase_tokens (lower raw) = {} then {''semua''}
      else phrase_tokens (lower raw))"
  by (simp only: parse_skin_tokens_def phrase_tokens_def Let_def option.case)

lemma phrase_tokens_CANON: "phrase_tokens text \<subseteq> CANON"
  using canonicalize_in_CANON by (auto simp: phrase_tokens_iff)

lemma phrase_tokens_empty_iff:
  "phrase_tokens text = {} \<longleftrightarrow> (\<forall>p \<in> set (re_split text). canonicalize_skin_token p = None)"
proof
  assume e: "phrase_tokens text = {}"
  show "\<forall>p \<in> set (re_split text). canonicalize_skin_token p = None"
  proof
    fix p assume p: "p \<in> set (re_split text)"
    show "canonicalize_skin_token p = None"
    proof (cases "canonicalize_skin_token p")
      case (Some t)
      with p have "t \<in> phrase_tokens text" by (auto simp: phrase_tokens_iff)
      with e show ?thesis by simp
    qed simp
  qed
next
  assume "\<forall>p \<in> set (re_split text). canonicalize_skin_token p = None"
  then have "\<And>t. t \<notin> phrase_tokens text" by (auto simp: phrase_tokens_iff)
  then show "phrase_tokens text = {}" by blast
qed

lemma phrase_tokens_no_semua:
  assumes "\<not> str_in ''semua'' (lower raw)"
  shows "''semua'' \<notin> phrase_tokens (lower raw)"
proof
  assume "''semua'' \<in> phrase_tokens (lower raw)"
  then obtain p where p: "p \<in> set (re_split (lower raw))"
    and c: "canonicalize_skin_token p = Some ''semua''"
    by (auto simp: phrase_tokens_iff)
  from p have sub: "sublist p (lower raw)" by (rule re_split_sublist)
  then have "lower p = p" by (rule lower_sublist)
  with canonicalize_semua [OF c] have "sublist ''semua'' p" by (simp add: str_in_def)
  from this sub have "sublist ''semua'' (lower raw)" by (rule sublist_order.order.trans)
  with assms show False by (simp add: str_in_def)
qed

text \<open>
  C3. For every raw skin-type value, absent or not, \<^verbatim>\<open>_parse_skin_tokens\<close> returns
  a non-empty set of canonical tokens; when the value is absent, or none of its
  phrases canonicalizes to a token, the result is exactly \<open>{semua}\<close>.
\<close>

theorem parse_skin_tokens_nonempty:
  "parse_skin_tokens s \<noteq> {} \<and> parse_skin_tokens s \<subseteq> CANON
   \<and> (s = None \<longrightarrow> parse_skin_tokens s = {''semua''})
   \<and> ((\<exists>raw. s = Some raw
              \<and> (\<forall>p \<in> set (re_split (lower raw)). canonicalize_skin_token p = None))
        \<longrightarrow> parse_skin_tokens s = {''semua''})"
proof (cases s)
  case None
  then show ?thesis by (simp add: parse_skin_tokens_def CANON_consts)
next
  case (Some raw)
  have "parse_skin_tokens (Some raw) \<noteq> {}"
    by (simp add: parse_skin_tokens_Some)
  moreover have "parse_skin_tokens (Some raw) \<subseteq> CANON"
    using phrase_tokens_CANON by (simp add: parse_skin_tokens_Some CANON_consts)
  moreover have "parse_skin_tokens (Some raw) = {''semua''}"
    if "\<forall>p \<in> set (re_split (lower raw)). canonicalize_skin_token p = None"
    using that phrase_tokens_empty_iff [of "lower raw"] by (simp add: parse_skin_tokens_Some)
  ultimately show ?thesis using Some by auto
qed

theorem parse_skin_tokens_nonempty_witness:
  "map canonicalize_skin_token (re_split (lower ''Bertekstur; pori besar'')) = [None, None]
   \<and> parse_skin_tokens (Some ''Bertekstur; pori besar'') = {''semua''}
   \<and> parse_skin_tokens None = {''semua''}
   \<and> parse_skin_tokens (Some ''Kulit berjerawat & berminyak'') \<noteq> {}
   \<and> parse_skin_tokens (Some ''Kulit berjerawat & berminyak'') \<subseteq> CANON"
proof -
  have m: "map canonicalize_skin_token (re_split (lower ''Bertekstur; pori besar''))
             = [None, None]"
    by code_simp
  have h: "\<forall>p \<in> set (re_split (lower ''Bertekstur; pori besar'')).
             canonicalize_skin_token p = None"
  proof
    fix p assume "p \<in> set (re_split (lower ''Bertekstur; pori besar''))"
    then have "canonicalize_skin_token p
                 \<in> set (map canonicalize_skin_token (re_split (lower ''Bertekstur; pori besar'')))"
      by simp
    then show "canonicalize_skin_token p = None" unfolding m by simp
  qed
  show ?thesis
    using m h parse_skin_tokens_nonempty [of "Some ''Bertekstur; pori besar''"]
      parse_skin_tokens_nonempty [of None]
      parse_skin_tokens_nonempty [of "Some ''Kulit berjerawat & berminyak''"]
    by simp
qed

text \<open>
  C7, as stated: a product whose token set holds \<open>semua\<close> had a raw text with an
  "all"/"semua" signal. It fails on a text that nothing is recognised in: the
  fail-open rule gives \<open>{semua}\<close> for it.
\<close>

theorem semua_without_signal_counterexample:
  "''semua'' \<in> parse_skin_tokens (Some ''Kulit bertekstur'')
   \<and> \<not> str_in ''semua'' (lower ''Kulit bertekstur'')
   \<and> \<not> str_in ''all'' (lower ''Kulit bertekstur'')"
  by code_simp

text \<open>
  C7, amended: if \<open>semua\<close> is in the token set, the set is exactly \<open>{semua}\<close>, and the raw
  value was absent, or its lower-cased text contains \<^verbatim>\<open>semua\<close>, or none of its
  phrases canonicalizes to a token.
\<close>

theorem semua_token_origin:
  assumes "''semua'' \<in> parse_skin_tokens s"
  shows "parse_skin_tokens s = {''semua''}
         \<and> (s = None
            \<or> (\<exists>raw. s = Some raw
                 \<and> (str_in ''semua'' (lower raw)
                    \<or> (\<forall>p \<in> set (re_split (lower raw)). canonicalize_skin_token p = None))))"
proof (cases s)
  case None
  then show ?thesis by (simp add: parse_skin_tokens_def)
next
  case (Some raw)
  show ?thesis
  proof (cases "str_in ''semua'' (lower raw)")
    case True
    with Some show ?thesis by (simp add: parse_skin_tokens_Some)
  next
    case False
    have "phrase_tokens (lower raw) = {}"
    proof (rule ccontr)
      assume "phrase_tokens (lower raw) \<noteq> {}"
      with False have "parse_skin_tokens (Some raw) = phrase_tokens (lower raw)"
        by (simp add: parse_skin_tokens_Some)
      with assms Some phrase_tokens_no_semua [OF False] show False by simp
    qed
    with False Some show ?thesis
      by (simp add: parse_skin_tokens_Some phrase_tokens_empty_iff)
  qed
qed

theorem semua_token_origin_witness:
  "''semua'' \<in> parse_skin_tokens (Some ''Kulit bertekstur'')
   \<and> parse_skin_tokens (Some ''Kulit bertekstur'') = {''semua''}
   \<and> \<not> str_in ''semua'' (lower ''Kulit bertekstur'')
   \<and> map canonicalize_skin_token (re_split (lower ''Kulit bertekstur'')) = [None]"
proof -
  have h: "''semua'' \<in> parse_skin_tokens (Some ''Kulit bertekstur'')" by code_simp
  have n: "\<not> str_in ''semua'' (lower ''Kulit bertekstur'')" by code_simp
  have m: "map canonicalize_skin_token (re_split (lower ''Kulit bertekstur'')) = [None]"
    by code_simp
  show ?thesis
    using h n m semua_token_origin [OF h] by simp
qed

text \<open>
  C8, as stated: a text that contains the word "all" or the word "semua" gives exactly
  \<open>{semua}\<close>. The code looks for \<^verbatim>\<open>semua\<close> only; "all" is no signal, and a text with
  "all" beside a recognised phrase gives the tokens of that phrase.
\<close>

theorem all_word_counterexample:
  "str_in ''all'' (lower ''All, dry'') \<and> parse_skin_tokens (Some ''All, dry'') = {''kering''}
   \<and> parse_skin_tokens (Some ''All, dry'') \<noteq> {''semua''}"
  by code_simp

text \<open>
  C8, amended: a text whose lower-cased form contains \<^verbatim>\<open>semua\<close> gives exactly
  \<open>{semua}\<close>, whatever else stands in it.
\<close>

theorem semua_short_circuit:
  "str_in ''semua'' (lower raw) \<Longrightarrow> parse_skin_tokens (Some raw) = {''semua''}"
  by (simp add: parse_skin_tokens_def)

theorem semua_short_circuit_witness:
  "str_in ''semua'' (lower ''Semua jenis kulit, kering'')
   \<and> parse_skin_tokens (Some ''Semua jenis kulit, kering'') = {''semua''}
   \<and> parse_skin_tokens (Some ''Semua jenis kulit'') = {''semua''}"
proof -
  have a: "str_in ''semua'' (lower ''Semua jenis kulit, kering'')" by code_simp
  have b: "str_in ''semua'' (lower ''Semua jenis kulit'')" by code_simp
  show ?thesis
    using a semua_short_circuit [OF a] semua_short_circuit [OF b] by simp
qed

section \<open>Properties of the compatibility filter\<close>

lemma normalize_loop_find:
  "normalize_loop items u =
     (case find (\<lambda>(std, syns). \<exists>v \<in> set syns. sublist v u) items of
        Some (std, _) \<Rightarrow> std
      | None \<Rightarrow> u)"
  by (induction items u rule: normalize_loop.induct)
     (simp_all add: list_ex_iff str_in_def)

lemma normalize_skin_type_spec: "normalize_skin_type u = spec_normalized_token u"
  by (simp add: normalize_skin_type_def spec_normalized_token_def normalize_loop_find)

lemma boolean_index_map:
  "length is = length rows \<Longrightarrow>
   boolean_index (zip is rows) (map Q rows) = filter (\<lambda>(i, p). Q p) (zip is rows)"
  unfolding boolean_index_def
  by (induction "is" rows rule: list_induct2) auto

text \<open>
  C4. For every user skin-type string, \<^verbatim>\<open>find_compatible_products\<close> returns exactly
  the rows of the catalog whose token set contains \<open>semua\<close> or the normalized token
  (the standard type of the first synonym group that matches, else the lower-cased
  string), each with its label, in the order of the catalog.
\<close>

theorem find_compatible_products_filter:
  assumes "products_df self = Some df"
  shows "find_compatible_products self u =
           Inr (filter (\<lambda>(i, p). ''semua'' \<in> skin_tokens p
                                  \<or> spec_normalized_token u \<in> skin_tokens p)
                       (zip (map int [0..<length df]) df))"
  using assms
  by (simp add: find_compatible_products_def Let_def boolean_index_map
      normalize_skin_type_spec)

theorem find_compatible_products_filter_witness:
  "products_df example_system = Some example_catalog
   \<and> map skin_tokens example_catalog = [{''semua''}, {''kering''}]
   \<and> spec_normalized_token ''oily'' = ''berminyak''
   \<and> find_compatible_products example_system ''oily'' = Inr [(0, example_catalog ! 0)]"
proof -
  have d: "products_df example_system = Some example_catalog"
    by (simp add: example_system_def)
  have t: "map skin_tokens example_catalog = [{''semua''}, {''kering''}]"
    by code_simp
  have n: "spec_normalized_token ''oily'' = ''berminyak''"
    by code_simp
  have f: "filter (\<lambda>(i, p). ''semua'' \<in> skin_tokens p
                             \<or> spec_normalized_token ''oily'' \<in> skin_tokens p)
                  (zip (map int [0..<length example_catalog]) example_catalog)
             = [(0, example_catalog ! 0)]"
    by code_simp
  show ?thesis
    using d t n f find_compatible_products_filter [OF d, of "''oily''"] by simp
qed

section \<open>Properties of the similarity engine\<close>








lemma normalize_row_length [simp]: "length (normalize_row v) = length v"
  by (simp add: normalize_row_def Let_def)



lemma cosine_similarity_length [simp]: "length (cosine_similarity X) = length X"
  by (simp add: cosine_similarity_def)












section \<open>Properties of the ranker\<close>

lemma mapE_Inr_iff: "mapE f xs = Inr ys \<longleftrightarrow> list_all2 (\<lambda>x y. f x = Inr y) xs ys"
proof (induction xs arbitrary: ys)
  case Nil
  then show ?case by auto
next
  case (Cons x xs)
  show ?case
  proof (cases ys)
    case Nil
    then show ?thesis by (auto split: sum.splits)
  next
    case (Cons y ys')
    then show ?thesis
      by (auto simp: Cons.IH [symmetric] split: sum.splits)
  qed
qed



lemma head_length: "0 \<le> n \<Longrightarrow> length (head n xs) \<le> nat n"
  by (simp add: head_def)


lemma head_sorted_wrt: "sorted_wrt R xs \<Longrightarrow> sorted_wrt R (head n xs)"
  by (simp add: head_def sorted_wrt_take)

text \<open>
  C10. When the stored similarity matrix is still \<^verbatim>\<open>None\<close>, \<^verbatim>\<open>rank_on_subset\<close>
  returns the empty list for every candidate list and every \<open>top_n\<close>, and raises
  nothing.
\<close>

theorem rank_on_subset_no_matrix:
  "similarity_matrix self = None \<Longrightarrow> rank_on_subset sort_values self idxs top_n = Inr []"
  by (simp add: rank_on_subset_def)

theorem rank_on_subset_no_matrix_witness:
  "similarity_matrix example_unbuilt = None
   \<and> rank_on_subset insertion_sort_desc example_unbuilt [0, 1] 5 = Inr []
   \<and> rank_on_subset insertion_sort_desc example_unbuilt [7, -2] (-1) = Inr []"
proof -
  have n: "similarity_matrix example_unbuilt = None"
    by (simp add: example_unbuilt_def)
  show ?thesis
    using n rank_on_subset_no_matrix [OF n, of insertion_sort_desc "[0, 1]" 5]
      rank_on_subset_no_matrix [OF n, of insertion_sort_desc "[7, -2]" "-1"]
    by simp
qed

text \<open>The rows that \<^verbatim>\<open>rank_on_subset\<close> returns are the rows of \<^verbatim>\<open>ranked_df\<close>.\<close>

lemma rank_on_subset_rows:
  assumes "rank_on_subset sort_values self idxs top_n = Inr res"
  shows "res = []
         \<or> (\<exists>scores. map (\<lambda>(i, s, p). (i, s)) res = head top_n (sort_values (zip idxs scores)))"
proof -
  have *: "map (\<lambda>(i, s, p). (i, s)) res = ranked"
    if "mapE (\<lambda>(idx, score). case loc df idx of Inl e \<Rightarrow> Inl e | Inr p \<Rightarrow> Inr (idx, score, p))
             ranked = Inr res" for df ranked
    using that unfolding mapE_Inr_iff
    by (induction ranked res rule: list_all2_induct) (auto split: sum.splits)
  from assms show ?thesis
    unfolding rank_on_subset_def Let_def
    by (auto split: if_splits option.splits sum.splits dest!: *)
qed

text \<open>
  The parts of C5 that hold on the code: at most \<open>top_n\<close> rows, scores in descending
  order, and the empty list for an empty candidate list or an index at or beyond the
  size of the catalog.
\<close>

lemma rank_on_subset_length:
  assumes "rank_on_subset sort_values self idxs top_n = Inr res" and "0 \<le> top_n"
  shows "length res \<le> nat top_n"
proof -
  from rank_on_subset_rows [OF assms(1)] show ?thesis
  proof
    assume "res = []"
    then show ?thesis by simp
  next
    assume "\<exists>scores. map (\<lambda>(i, s, p). (i, s)) res = head top_n (sort_values (zip idxs scores))"
    then obtain scores where
      "map (\<lambda>(i, s, p). (i, s)) res = head top_n (sort_values (zip idxs scores))" ..
    then have "length res = length (head top_n (sort_values (zip idxs scores)))"
      by (metis length_map)
    with head_length [OF assms(2)] show ?thesis by simp
  qed
qed

lemma rank_on_subset_sorted:
  assumes "rank_on_subset sort_values self idxs top_n = Inr res"
    and "sorts_descending sort_values"
  shows "sorted_wrt (\<lambda>a b. fst (snd a) \<ge> fst (snd b)) res"
proof -
  from rank_on_subset_rows [OF assms(1)] show ?thesis
  proof
    assume "res = []"
    then show ?thesis by simp
  next
    assume "\<exists>scores. map (\<lambda>(i, s, p). (i, s)) res = head top_n (sort_values (zip idxs scores))"
    then obtain scores where
      r: "map (\<lambda>(i, s, p). (i, s)) res = head top_n (sort_values (zip idxs scores))" ..
    have "sorted_wrt (\<lambda>a b. snd a \<ge> snd b) (head top_n (sort_values (zip idxs scores)))"
      using assms(2) by (simp add: sorts_descending_def head_sorted_wrt)
    then have "sorted_wrt (\<lambda>a b. snd a \<ge> snd b) (map (\<lambda>(i, s, p). (i, s)) res)"
      by (simp only: r)
    then show ?thesis
      by (simp add: sorted_wrt_map case_prod_unfold)
  qed
qed

lemma py_max_ge: "x \<in> set xs \<Longrightarrow> x \<le> py_max xs"
proof -
  assume x: "x \<in> set xs"
  then obtain y ys where xs: "xs = y # ys" by (cases xs) auto
  have "py_max xs = Max (set xs)"
    unfolding xs py_max_def using Max.set_eq_fold [of y ys] by simp
  with x show ?thesis by simp
qed

lemma rank_on_subset_too_large:
  assumes "products_df self = Some df" and "i \<in> set idxs" and "int (length df) \<le> i"
  shows "rank_on_subset sort_values self idxs top_n = Inr []"
proof -
  from assms(2) have "idxs \<noteq> []" by auto
  moreover from py_max_ge [OF assms(2)] assms(3) have "int (length df) \<le> py_max idxs" by simp
  ultimately show ?thesis
    using assms(1) by (simp add: rank_on_subset_def split: option.splits)
qed

lemma rank_on_subset_empty: "rank_on_subset sort_values self [] top_n = Inr []"
  by (simp add: rank_on_subset_def)

text \<open>
  C5: the output is empty, and nothing is raised, whenever a candidate index is out of
  range. The guard of \<^verbatim>\<open>rank_on_subset\<close> compares only the largest index with the
  size of the catalog, so a negative index passes it; \<^verbatim>\<open>products_df.loc\<close> then
  raises \<^verbatim>\<open>KeyError\<close>.
\<close>

theorem rank_on_subset_negative_index:
  "rank_on_subset sort_values example_system [-1] 5 = Inl KeyError"
  by (simp add: rank_on_subset_def example_system_def example_catalog_def py_max_def
      np_ix_def np_index_def loc_def mean_axis1_def)








lemma insertion_sort_desc_sorts: "sorts_descending insertion_sort_desc"
proof -
  have "sorted_wrt (\<lambda>a b. snd a \<ge> snd b) (sort_key (\<lambda>r. - snd r) rows)"
    for rows :: "(int \<times> real) list"
    using sorted_sort_key [of "\<lambda>r. - snd r" rows]
    by (simp add: sorted_map)
  then show ?thesis
    by (simp add: sorts_descending_def insertion_sort_desc_def)
qed


section \<open>Properties of the schema normalizer\<close>

lemma nrows_append_fill [simp]: "nrows (df @ [(col, replicate (nrows df) v)]) = nrows df"
  by (cases df) (auto simp: nrows_def)

lemma nrows_relabel [simp]: "nrows (map (\<lambda>(c, cells). (f c, cells)) df) = nrows df"
  by (cases df) (auto simp: nrows_def)

text \<open>The columns that carry a label after the first loop.\<close>

lemma fill_missing_columns:
  "filter (\<lambda>x. fst x = c) (fill_missing cols df) =
     (if c \<in> fst ` set df then filter (\<lambda>x. fst x = c) df
      else if c \<in> set cols
        then [(c, replicate (nrows df) (if c \<notin> set numeric_cols then Str [] else NaN))]
      else [])"
proof (induction cols arbitrary: df)
  case Nil
  show ?case by (auto simp: filter_empty_conv)
next
  case (Cons col cols)
  show ?case
  proof (cases "col \<in> fst ` set df")
    case True
    then show ?thesis by (auto simp: Cons.IH)
  next
    case False
    then show ?thesis
      by (auto simp: Cons.IH filter_empty_conv)
  qed
qed

lemma fill_missing_labels: "set (map fst (fill_missing cols df)) = set (map fst df) \<union> set cols"
  by (induction cols arbitrary: df) auto

lemma in_filter_label: "(c, cells) \<in> set df \<longleftrightarrow> (c, cells) \<in> set (filter (\<lambda>x. fst x = c) df)"
  by auto

text \<open>The second loop, when each numeric label is carried by one column.\<close>

lemma coerce_numeric_unique:
  assumes "\<forall>col \<in> set cols. length (filter (\<lambda>c. fst c = col) df) = 1"
  shows "coerce_numeric parse cols df =
           Inr (map (\<lambda>(c, cells). (c, if c \<in> set cols then to_numeric parse cells else cells)) df)"
  using assms
proof (induction cols arbitrary: df)
  case Nil
  show ?case by (simp add: case_prod_unfold)
next
  case (Cons col cols)
  let ?df = "map (\<lambda>(c, cells). if c = col then (c, to_numeric parse cells) else (c, cells)) df"
  have idem: "to_numeric parse (to_numeric parse cells) = to_numeric parse cells" for cells
    by (induction cells) (auto simp: to_numeric_def split: cell.splits option.splits)
  have same: "filter (\<lambda>c. fst c = x) ?df
                = map (\<lambda>(c, cells). if c = col then (c, to_numeric parse cells) else (c, cells))
                      (filter (\<lambda>c. fst c = x) df)" for x
  proof -
    have "fst (case y of (c, cells) \<Rightarrow>
                 if c = col then (c, to_numeric parse cells) else (c, cells)) = fst y"
      for y :: column
      by (cases y) simp
    then show ?thesis by (simp add: filter_map o_def)
  qed
  have "\<forall>x \<in> set cols. length (filter (\<lambda>c. fst c = x) ?df) = 1"
    using Cons.prems by (simp add: same)
  then have "coerce_numeric parse cols ?df =
      Inr (map (\<lambda>(c, cells). (c, if c \<in> set cols then to_numeric parse cells else cells)) ?df)"
    by (rule Cons.IH)
  moreover have "length (filter (\<lambda>c. fst c = col) df) = 1"
    using Cons.prems by simp
  ultimately show ?case
    by (auto simp: Let_def idem)
qed

lemma astype_str_idem: "astype_str repr (astype_str repr c) = astype_str repr c"
  by (cases c) (simp_all add: astype_str_def)

lemma stringify_map:
  "stringify repr cols df =
     map (\<lambda>(c, cells).
            (c, if c \<in> set cols \<and> c \<notin> set [''rating'', ''harga_idr'', ''size_ml'', ''id'']
                then map (astype_str repr) cells else cells)) df"
proof (induction cols arbitrary: df)
  case Nil
  show ?case by (simp add: case_prod_unfold)
next
  case (Cons col cols)
  show ?case
    unfolding stringify.simps Cons.IH
    by (auto simp: astype_str_idem)
qed

lemma to_numeric_length [simp]: "length (to_numeric parse cells) = length cells"
  by (simp add: to_numeric_def)

lemma to_numeric_missing:
  "k < length cells \<Longrightarrow> cells ! k = NaN \<or> (\<exists>s. cells ! k = Str s \<and> parse s = None) \<Longrightarrow>
   to_numeric parse cells ! k = NaN"
  by (auto simp: to_numeric_def)

lemma to_numeric_no_text: "Str s \<notin> set (to_numeric parse cells)"
  by (auto simp: to_numeric_def split: cell.splits option.splits)

lemma to_numeric_replicate_NaN: "to_numeric parse (replicate n NaN) = replicate n NaN"
  by (simp add: to_numeric_def)

lemma map_cells_mem:
  "(col, cells) \<in> set (map (\<lambda>(c, cells). (c, h c cells)) d) \<longleftrightarrow>
     (\<exists>cells1. (col, cells1) \<in> set d \<and> cells = h col cells1)"
  by (induction d) auto

lemma relabel_mem:
  "(col, cells) \<in> set (map (\<lambda>(c, cells). (f c, cells)) d) \<longleftrightarrow>
     (\<exists>c. (c, cells) \<in> set d \<and> f c = col)"
  by (induction d) auto

lemma relabel_labels: "fst ` set (map (\<lambda>(c, cells). (f c, cells)) d) = f ` fst ` set d"
  by (induction d) auto

text \<open>
  \<^verbatim>\<open>_normalize_schema\<close> in closed form, when each numeric canonical label is carried
  by at most one column of the input.
\<close>

lemma normalize_schema_unique:
  assumes order: "set order = required_cols"
    and unique: "\<forall>col \<in> set numeric_cols.
                   length (filter (\<lambda>c. canonical_label (fst c) = col) df) \<le> 1"
  shows "normalize_schema parse repr order df =
           Inr (map (\<lambda>(c, cells).
                  (c, if c \<in> set numeric_cols then to_numeric parse cells
                      else if c \<in> required_cols \<and> c \<noteq> ''id'' then map (astype_str repr) cells
                      else cells))
                (fill_missing order (map (\<lambda>(c, cells). (canonical_label c, cells)) df)))"
proof -
  let ?d0 = "map (\<lambda>(c, cells). (canonical_label c, cells)) df"
  let ?d1 = "fill_missing order ?d0"
  have relabel: "map (\<lambda>(c, cells). (rename_column c, cells))
                   (map (\<lambda>(c, cells). (normalize_column_name c, cells)) df) = ?d0"
    by (simp add: canonical_label_def case_prod_unfold)
  have num_req: "set numeric_cols \<subseteq> set order"
    by (simp add: order numeric_cols_def required_cols_def)
  have one: "length (filter (\<lambda>x. fst x = col) ?d1) = 1" if col: "col \<in> set numeric_cols" for col
  proof (cases "col \<in> fst ` set ?d0")
    case True
    then obtain cells where "(col, cells) \<in> set ?d0" by force
    then have "filter (\<lambda>x. fst x = col) ?d0 \<noteq> []"
      unfolding filter_empty_conv by force
    moreover have "length (filter (\<lambda>x. fst x = col) ?d0) \<le> 1"
      using unique col by (simp add: filter_map o_def case_prod_unfold)
    ultimately have "length (filter (\<lambda>x. fst x = col) ?d0) = 1"
      by (cases "filter (\<lambda>x. fst x = col) ?d0") auto
    with True show ?thesis by (simp only: fill_missing_columns if_True)
  next
    case False
    with col num_req show ?thesis
      by (auto simp: fill_missing_columns simp del: fill_missing.simps)
  qed
  have coerce: "coerce_numeric parse numeric_cols ?d1 =
      Inr (map (\<lambda>(c, cells). (c, if c \<in> set numeric_cols then to_numeric parse cells else cells))
               ?d1)"
    by (rule coerce_numeric_unique) (simp add: one)
  have "normalize_schema parse repr order df =
      Inr (stringify repr order
            (map (\<lambda>(c, cells). (c, if c \<in> set numeric_cols then to_numeric parse cells else cells))
                 ?d1))"
    unfolding normalize_schema_def Let_def relabel coerce by simp
  also have "\<dots> = Inr (map (\<lambda>(c, cells).
                  (c, if c \<in> set numeric_cols then to_numeric parse cells
                      else if c \<in> required_cols \<and> c \<noteq> ''id'' then map (astype_str repr) cells
                      else cells)) ?d1)"
    unfolding stringify_map order
    by (auto simp: numeric_cols_def case_prod_unfold)
  finally show ?thesis .
qed

text \<open>
  C9, as stated: \<^verbatim>\<open>_normalize_schema\<close> returns a table for every input table. It
  raises on a table in which two columns come to carry the same numeric canonical
  label, as a price column named \<^verbatim>\<open>harga\<close> beside one named \<^verbatim>\<open>price\<close>.
\<close>

theorem normalize_schema_counterexample:
  "normalize_schema example_parse example_repr required_order
     [(''harga'', [Num 89000]), (''price'', [Num 89000])] = Inl TypeError"
  by code_simp

text \<open>
  C9, amended: for every input table in which each of the labels \<^verbatim>\<open>rating\<close>,
  \<^verbatim>\<open>harga_idr\<close> and \<^verbatim>\<open>size_ml\<close> is carried, after the renaming, by at most one
  column, \<^verbatim>\<open>_normalize_schema\<close> returns a table that has every canonical column;
  an absent non-numeric canonical column holds the empty string in every row; an
  absent numeric canonical column holds the missing value in every row; a numeric
  canonical column that is present keeps its length, holds no text, and holds the
  missing value wherever the input held it or a text that is not a number.
\<close>

theorem normalize_schema_total:
  assumes order: "set order = required_cols"
    and unique: "\<forall>col \<in> set numeric_cols.
                   length (filter (\<lambda>c. canonical_label (fst c) = col) df) \<le> 1"
  shows "\<exists>out. normalize_schema parse repr order df = Inr out
           \<and> required_cols \<subseteq> fst ` set out
           \<and> (\<forall>col \<in> required_cols - set numeric_cols.
                 col \<notin> canonical_label ` fst ` set df \<longrightarrow>
                 (\<forall>cells. (col, cells) \<in> set out \<longrightarrow> cells = replicate (nrows df) (Str [])))
           \<and> (\<forall>col \<in> set numeric_cols. \<forall>cells. (col, cells) \<in> set out \<longrightarrow>
                 (\<forall>s. Str s \<notin> set cells)
                 \<and> (col \<notin> canonical_label ` fst ` set df \<longrightarrow>
                      cells = replicate (nrows df) NaN)
                 \<and> (\<forall>c raw. (c, raw) \<in> set df \<and> canonical_label c = col \<longrightarrow>
                      length cells = length raw
                      \<and> (\<forall>k < length raw.
                            raw ! k = NaN \<or> (\<exists>s. raw ! k = Str s \<and> parse s = None) \<longrightarrow>
                            cells ! k = NaN)))"
proof -
  let ?d0 = "map (\<lambda>(c, cells). (canonical_label c, cells)) df"
  let ?d1 = "fill_missing order ?d0"
  let ?h = "\<lambda>c cells. if c \<in> set numeric_cols then to_numeric parse cells
                       else if c \<in> required_cols \<and> c \<noteq> ''id'' then map (astype_str repr) cells
                       else cells"
  let ?out = "map (\<lambda>(c, cells). (c, ?h c cells)) ?d1"
  have run: "normalize_schema parse repr order df = Inr ?out"
    using assms by (rule normalize_schema_unique)
  have labels0: "fst ` set ?d0 = canonical_label ` fst ` set df"
    by (rule relabel_labels)
  have out_iff: "(col, cells) \<in> set ?out \<longleftrightarrow>
                   (\<exists>cells1. (col, cells1) \<in> set (filter (\<lambda>x. fst x = col) ?d1)
                              \<and> cells = ?h col cells1)" for col cells
    by (subst map_cells_mem) simp
  have absent: "filter (\<lambda>x. fst x = col) ?d1 =
                  [(col, replicate (nrows df) (if col \<notin> set numeric_cols then Str [] else NaN))]"
    if "col \<in> required_cols" "col \<notin> canonical_label ` fst ` set df" for col
    using that unfolding fill_missing_columns labels0 by (simp add: order)
  have present: "filter (\<lambda>x. fst x = col) ?d1 = [(col, raw)]"
    if "col \<in> set numeric_cols" "(c, raw) \<in> set df" "canonical_label c = col" for col c raw
  proof -
    from that have in0: "(col, raw) \<in> set (filter (\<lambda>x. fst x = col) ?d0)"
      by (auto simp: relabel_mem)
    moreover have "length (filter (\<lambda>x. fst x = col) ?d0) \<le> 1"
      using unique that(1) by (simp add: filter_map o_def case_prod_unfold)
    ultimately have "filter (\<lambda>x. fst x = col) ?d0 = [(col, raw)]"
      by (cases "filter (\<lambda>x. fst x = col) ?d0") auto
    moreover from in0 have "col \<in> fst ` set ?d0" by force
    ultimately show ?thesis by (simp only: fill_missing_columns if_True)
  qed
  have num_req: "set numeric_cols \<subseteq> required_cols"
    by (simp add: numeric_cols_def required_cols_def)
  have all: "required_cols \<subseteq> fst ` set ?out"
  proof -
    have "map fst ?out = map fst ?d1" by (simp add: case_prod_unfold)
    then have "fst ` set ?out = set (map fst ?d1)" by (metis set_map)
    also have "\<dots> = set (map fst ?d0) \<union> required_cols"
      unfolding fill_missing_labels order ..
    finally show ?thesis by blast
  qed
  have filled: "cells = replicate (nrows df) (Str [])"
    if "col \<in> required_cols - set numeric_cols" "col \<notin> canonical_label ` fst ` set df"
      "(col, cells) \<in> set ?out" for col cells
  proof -
    from that(3) obtain cells1 where
      c1: "(col, cells1) \<in> set (filter (\<lambda>x. fst x = col) ?d1)"
      and cells: "cells = ?h col cells1"
      unfolding out_iff by blast
    from that(1) have req: "col \<in> required_cols" and nn: "col \<notin> set numeric_cols"
      by simp_all
    from c1 have "(col, cells1) \<in> set [(col, replicate (nrows df)
                     (if col \<notin> set numeric_cols then Str [] else NaN))]"
      unfolding absent [OF req that(2)] .
    with nn have "cells1 = replicate (nrows df) (Str [])" by simp
    then show ?thesis
      unfolding cells using nn by (simp add: astype_str_def)
  qed
  have num: "(\<forall>s. Str s \<notin> set cells)
             \<and> (col \<notin> canonical_label ` fst ` set df \<longrightarrow> cells = replicate (nrows df) NaN)
             \<and> (\<forall>c raw. (c, raw) \<in> set df \<and> canonical_label c = col \<longrightarrow>
                  length cells = length raw
                  \<and> (\<forall>k < length raw.
                        raw ! k = NaN \<or> (\<exists>s. raw ! k = Str s \<and> parse s = None) \<longrightarrow>
                        cells ! k = NaN))"
    if col: "col \<in> set numeric_cols" and mem: "(col, cells) \<in> set ?out" for col cells
  proof -
    from mem col obtain cells1 where
      c1: "(col, cells1) \<in> set (filter (\<lambda>x. fst x = col) ?d1)"
      and cells: "cells = to_numeric parse cells1"
      unfolding out_iff by auto
    have a: "\<forall>s. Str s \<notin> set cells"
      unfolding cells by (simp add: to_numeric_no_text)
    have b: "cells = replicate (nrows df) NaN" if "col \<notin> canonical_label ` fst ` set df"
    proof -
      from col num_req have "col \<in> required_cols" by blast
      from c1 have "(col, cells1) \<in> set [(col, replicate (nrows df)
                       (if col \<notin> set numeric_cols then Str [] else NaN))]"
        unfolding absent [OF \<open>col \<in> required_cols\<close> that] .
      with col have "cells1 = replicate (nrows df) NaN" by simp
      then show ?thesis unfolding cells by (simp add: to_numeric_replicate_NaN)
    qed
    have c: "length cells = length raw
             \<and> (\<forall>k < length raw.
                   raw ! k = NaN \<or> (\<exists>s. raw ! k = Str s \<and> parse s = None) \<longrightarrow> cells ! k = NaN)"
      if "(c, raw) \<in> set df" "canonical_label c = col" for c raw
    proof -
      from c1 have "(col, cells1) \<in> set [(col, raw)]"
        unfolding present [OF col that] .
      then have "cells1 = raw" by simp
      then show ?thesis
        unfolding cells by (simp add: to_numeric_missing)
    qed
    from a b c show ?thesis by blast
  qed
  from run all filled num show ?thesis by blast
qed

theorem normalize_schema_total_witness:
  "set required_order = required_cols
   \<and> map (canonical_label \<circ> fst)
       [(''Product Name'', [Str ''Toner'', Str ''Serum'']), (''Rating'', [Str ''4.5'', Str ''bagus''])]
       = [''nama_produk'', ''rating'']
   \<and> normalize_schema example_parse example_repr required_order
       [(''Product Name'', [Str ''Toner'', Str ''Serum'']), (''Rating'', [Str ''4.5'', Str ''bagus''])]
     = Inr [(''nama_produk'', [Str ''Toner'', Str ''Serum'']),
            (''rating'', [Num 4.5, NaN]),
            (''id'', [Str [], Str []]),
            (''brand'', [Str [], Str []]),
            (''sub_kategori'', [Str [], Str []]),
            (''manfaat'', [Str [], Str []]),
            (''jenis_kulit_kompatibel'', [Str [], Str []]),
            (''deskripsi'', [Str [], Str []]),
            (''harga_idr'', [NaN, NaN]),
            (''size_ml'', [NaN, NaN]),
            (''klaim'', [Str [], Str []]),
            (''url_gambar'', [Str [], Str []])]"
proof -
  let ?df = "[(''Product Name'', [Str ''Toner'', Str ''Serum'']),
              (''Rating'', [Str ''4.5'', Str ''bagus''])]"
  have o: "set required_order = required_cols"
    by (simp add: required_order_def required_cols_def insert_commute)
  have l: "map (canonical_label \<circ> fst) ?df = [''nama_produk'', ''rating'']"
    by code_simp
  have u: "\<forall>col \<in> set numeric_cols.
             length (filter (\<lambda>c. canonical_label (fst c) = col) ?df) \<le> 1"
    by code_simp
  have e: "normalize_schema example_parse example_repr required_order ?df
     = Inr [(''nama_produk'', [Str ''Toner'', Str ''Serum'']),
            (''rating'', [Num 4.5, NaN]),
            (''id'', [Str [], Str []]),
            (''brand'', [Str [], Str []]),
            (''sub_kategori'', [Str [], Str []]),
            (''manfaat'', [Str [], Str []]),
            (''jenis_kulit_kompatibel'', [Str [], Str []]),
            (''deskripsi'', [Str [], Str []]),
            (''harga_idr'', [NaN, NaN]),
            (''size_ml'', [NaN, NaN]),
            (''klaim'', [Str [], Str []]),
            (''url_gambar'', [Str [], Str []])]"
    by code_simp
  from normalize_schema_total [OF o u, of example_parse example_repr]
  obtain out where "normalize_schema example_parse example_repr required_order ?df = Inr out"
    and "required_cols \<subseteq> fst ` set out"
    by blast
  with o l e show ?thesis by simp
qed

end
